theory Spec2Isabelle
  imports Complex_Main "HOL-Library.Log_Nat"
begin

section \<open>Personal finance tracker: the debt engine of Finance.py\<close>

text \<open>
  The program keeps its data in an SQLite file. Three tables matter for debts:
  \<^verbatim>\<open>debts\<close>, \<^verbatim>\<open>debt_payments\<close> and \<^verbatim>\<open>savings\<close>. A table is a list of
  rows in insertion order; an \<^verbatim>\<open>AUTOINCREMENT\<close> key of a table nothing is ever deleted
  from is the row's position, counted from 1.

  Numbers: the columns are \<^verbatim>\<open>REAL\<close> and the script computes with Python floats. The
  payment and the pay-off loop are modelled over exact real numbers, which leaves binary
  rounding out; where rounding decides a question (whether the loop ends), the loop is
  given a second time with every operation rounded as binary64 rounds it. Dates are the
  strings the script stores.
\<close>

subsection \<open>Tables\<close>

record debt =
  id_debts :: nat
  creditor :: string
  amount_owed :: real
  interest_rate :: real
  min_payment :: real

record debt_payment =
  debt_id :: nat
  payment_amount :: real
  payment_date :: string

text \<open>
  \<^verbatim>\<open>initialize_db\<close> runs before every \<^verbatim>\<open>main()\<close> and inserts the row (0, 0, 0)
  when the savings table is empty; nothing else inserts into it or deletes from it. The
  table therefore holds exactly one row, the one every
  \<^verbatim>\<open>WHERE id = (SELECT MIN(id) FROM savings)\<close> addresses.
\<close>

record savings_row =
  saved_amount :: real
  goal_amount :: real
  monthly_savings :: real

record store =
  debts :: "debt list"
  debt_payments :: "debt_payment list"
  savings :: savings_row

definition initialize_db :: store where
  "initialize_db =
     \<lparr>debts = [], debt_payments = [],
      savings = \<lparr>saved_amount = 0, goal_amount = 0, monthly_savings = 0\<rparr>\<rparr>"

subsection \<open>Messages\<close>

text \<open>
  The script reports a refusal with \<^verbatim>\<open>st.warning\<close> or \<^verbatim>\<open>st.error\<close> and changes
  nothing. \<open>InvalidInput\<close> stands for the two warnings "Minimum payment must be greater
  than 0 to calculate repayment time." and "Additional payment must be greater than 0.";
  \<open>InsufficientPayment\<close> for the error "Additional payment is not enough to cover the
  interest. Increase the payment amount."; \<open>NotFound\<close> for a creditor that is not in the
  table, where the script does not render the calculator at all.
\<close>

datatype error = InvalidInput | InsufficientPayment | NotFound

subsection \<open>Adding a debt\<close>

text \<open>
  \<^verbatim>\<open>INSERT INTO debts (creditor, amount_owed, interest_rate, min_payment) VALUES (?, ?, ?, ?)\<close>:
  the row is appended as it is typed; the table has no uniqueness constraint and the
  script looks nothing up before inserting.
\<close>

definition add_debt :: "store \<Rightarrow> string \<Rightarrow> real \<Rightarrow> real \<Rightarrow> real \<Rightarrow> store" where
  "add_debt s creditor_name amount rate minimum =
     s\<lparr>debts := debts s @
        [\<lparr>id_debts = Suc (length (debts s)), creditor = creditor_name,
          amount_owed = amount, interest_rate = rate, min_payment = minimum\<rparr>]\<rparr>"

subsection \<open>Savings forms\<close>

definition add_to_savings :: "store \<Rightarrow> real \<Rightarrow> store" where
  "add_to_savings s savings_amount =
     s\<lparr>savings := (savings s)\<lparr>saved_amount := saved_amount (savings s) + savings_amount\<rparr>\<rparr>"

definition update_goal :: "store \<Rightarrow> real \<Rightarrow> store" where
  "update_goal s new_goal = s\<lparr>savings := (savings s)\<lparr>goal_amount := new_goal\<rparr>\<rparr>"

definition update_monthly_savings :: "store \<Rightarrow> real \<Rightarrow> store" where
  "update_monthly_savings s new_monthly_savings =
     s\<lparr>savings := (savings s)
        \<lparr>monthly_savings := monthly_savings (savings s) + new_monthly_savings,
         saved_amount := saved_amount (savings s) + new_monthly_savings\<rparr>\<rparr>"

subsection \<open>Selecting a debt\<close>

text \<open>
  \<^verbatim>\<open>debts_df[debts_df["creditor"] == selected_debt].iloc[0]\<close>: the first row whose
  creditor is the selected name.
\<close>

definition selected_debt_details :: "store \<Rightarrow> string \<Rightarrow> debt option" where
  "selected_debt_details s selected_debt =
     find (\<lambda>d. creditor d = selected_debt) (debts s)"

subsection \<open>Time to pay off with the minimum payment\<close>

text \<open>
  The \<^verbatim>\<open>while remaining_balance > 0\<close> loop. Nothing in the script bounds the number
  of rounds, so the loop is a partial function: \<open>None\<close> is a run that never leaves the
  loop.
\<close>

partial_function (option) payoff_loop ::
  "real \<Rightarrow> real \<Rightarrow> real \<Rightarrow> nat \<Rightarrow> real \<Rightarrow> (nat \<times> real) option" where
  "payoff_loop monthly_interest_rate minimum remaining_balance months total_interest =
     (if remaining_balance > 0 then
        let interest = remaining_balance * monthly_interest_rate;
            principal = minimum - interest
        in payoff_loop monthly_interest_rate minimum (remaining_balance - principal)
             (months + 1) (total_interest + interest)
      else Some (months, total_interest))"

declare payoff_loop.simps [code]

text \<open>
  The calculator: \<open>Some (Inr (months, total_interest))\<close> when the loop ends,
  \<open>Some (Inl InvalidInput)\<close> for the warning, \<open>None\<close> when the loop never ends.
\<close>

definition time_to_pay_off :: "real \<Rightarrow> real \<Rightarrow> real \<Rightarrow> (error + nat \<times> real) option" where
  "time_to_pay_off amount rate minimum =
     (if minimum > 0 then
        map_option Inr (payoff_loop ((rate / 100) / 12) minimum amount 0 0)
      else Some (Inl InvalidInput))"

subsection \<open>The same loop in binary64 arithmetic\<close>

text \<open>
  A Python float is an IEEE binary64 number, and \<^verbatim>\<open>*\<close>, \<^verbatim>\<open>/\<close>, \<^verbatim>\<open>+\<close> and
  \<^verbatim>\<open>-\<close> return the exact result rounded to the nearest binary64 number, a tie going
  to the neighbour whose last bit is even. A binary64 number has 53 significant bits:
  for 2^e <= |x| < 2^(e+1) the neighbours of x are the multiples of 2^(e - 52), and
  below 2^(-1022) the spacing stays 2^(-1074). Results beyond the largest binary64
  number (they overflow to inf) are not represented; the runs considered here stay far
  from that range.
\<close>

definition round_half_even :: "real \<Rightarrow> int" where
  "round_half_even x =
     (let f = \<lfloor>x\<rfloor>; d = x - of_int f
      in if d < 1 / 2 then f else if 1 / 2 < d then f + 1
         else if even f then f else f + 1)"

text \<open>The exponent e with 2^e <= x < 2^(e+1), for x > 0.\<close>

definition binade :: "real \<Rightarrow> int" where
  "binade x = (if 1 \<le> x then bitlen \<lfloor>x\<rfloor> - 1 else - bitlen (\<lceil>1 / x\<rceil> - 1))"

definition round64 :: "real \<Rightarrow> real" where
  "round64 x =
     (if x = 0 then 0
      else let e = max (binade \<bar>x\<bar>) (- 1022); ulp = 2 powi (e - 52)
           in of_int (round_half_even (x / ulp)) * ulp)"

text \<open>
  The loop of lines 360 to 365 and the calculator around it, with each arithmetic
  operation of the script rounded where the script performs it.
\<close>

partial_function (option) payoff_loop64 ::
  "real \<Rightarrow> real \<Rightarrow> real \<Rightarrow> nat \<Rightarrow> real \<Rightarrow> (nat \<times> real) option" where
  "payoff_loop64 monthly_interest_rate minimum remaining_balance months total_interest =
     (if remaining_balance > 0 then
        let interest = round64 (remaining_balance * monthly_interest_rate);
            principal = round64 (minimum - interest)
        in payoff_loop64 monthly_interest_rate minimum
             (round64 (remaining_balance - principal))
             (months + 1) (round64 (total_interest + interest))
      else Some (months, total_interest))"

declare payoff_loop64.simps [code]

definition time_to_pay_off64 :: "real \<Rightarrow> real \<Rightarrow> real \<Rightarrow> (error + nat \<times> real) option" where
  "time_to_pay_off64 amount rate minimum =
     (if minimum > 0 then
        map_option Inr
          (payoff_loop64 (round64 (round64 (rate / 100) / 12)) minimum amount 0 0)
      else Some (Inl InvalidInput))"

subsection \<open>Applying an additional payment\<close>

text \<open>What the script prints after an accepted payment.\<close>

record receipt =
  interest_paid :: real
  principal_paid :: real
  new_amount_owed :: real

text \<open>
  The three statements of the accepted branch, committed together:
  \<^verbatim>\<open>UPDATE debts SET amount_owed = ? WHERE creditor = ?\<close> writes every row with the
  selected creditor name; the payment row carries the id of the selected row, the whole
  payment and today's date; the savings row loses the whole payment.
\<close>

definition apply_additional_payment ::
  "store \<Rightarrow> string \<Rightarrow> real \<Rightarrow> string \<Rightarrow> (error + receipt) \<times> store" where
  "apply_additional_payment s selected_debt additional_payment today =
     (case selected_debt_details s selected_debt of
        None \<Rightarrow> (Inl NotFound, s)
      | Some details \<Rightarrow>
          if additional_payment > 0 then
            let monthly_interest_rate = (interest_rate details / 100) / 12;
                interest = amount_owed details * monthly_interest_rate;
                principal_payment = additional_payment - interest
            in if principal_payment < 0 then (Inl InsufficientPayment, s)
               else
                 let new_amount = amount_owed details - principal_payment
                 in (Inr \<lparr>interest_paid = interest, principal_paid = principal_payment,
                          new_amount_owed = new_amount\<rparr>,
                     s\<lparr>debts :=
                          map (\<lambda>d. if creditor d = selected_debt
                                    then d\<lparr>amount_owed := new_amount\<rparr> else d) (debts s),
                       debt_payments := debt_payments s @
                          [\<lparr>debt_id = id_debts details,
                            payment_amount = additional_payment,
                            payment_date = today\<rparr>],
                       savings := (savings s)
                          \<lparr>saved_amount := saved_amount (savings s) - additional_payment\<rparr>\<rparr>)
          else (Inl InvalidInput, s))"

text \<open>
  Pressing "Apply Additional Payment" for one creditor again and again, each time with
  an amount and the date of that day. The result lists the payments that were accepted,
  in order, and the store after the last one.
\<close>

fun apply_payments ::
  "store \<Rightarrow> string \<Rightarrow> (real \<times> string) list \<Rightarrow> (real \<times> string) list \<times> store" where
  "apply_payments s selected_debt [] = ([], s)"
| "apply_payments s selected_debt ((additional_payment, today) # rest) =
     (case apply_additional_payment s selected_debt additional_payment today of
        (Inl e, s') \<Rightarrow> apply_payments s' selected_debt rest
      | (Inr r, s') \<Rightarrow>
          (case apply_payments s' selected_debt rest of
             (accepted, s'') \<Rightarrow> ((additional_payment, today) # accepted, s'')))"

text \<open>
  \<^verbatim>\<open>SELECT SUM(payment_amount) FROM debt_payments\<close>, as the overview computes it, here
  for the rows of one debt.
\<close>

definition total_debt_payments :: "store \<Rightarrow> nat \<Rightarrow> real" where
  "total_debt_payments s i =
     sum_list (map payment_amount (filter (\<lambda>p. debt_id p = i) (debt_payments s)))"

subsection \<open>What the forms can reach\<close>

text \<open>
  Every \<^verbatim>\<open>st.number_input\<close> of the script has \<^verbatim>\<open>min_value=0.0\<close>, so no form
  passes a negative number; the creditor of a payment comes from a select box over the
  creditors in the table. "Reset Database" leads back to \<open>initialize_db\<close>.
\<close>

inductive reachable :: "store \<Rightarrow> bool" where
  reach_initialize_db: "reachable initialize_db"
| reach_add_debt:
    "reachable s \<Longrightarrow> 0 \<le> amount \<Longrightarrow> 0 \<le> rate \<Longrightarrow> 0 \<le> minimum \<Longrightarrow>
     reachable (add_debt s creditor_name amount rate minimum)"
| reach_add_to_savings:
    "reachable s \<Longrightarrow> 0 \<le> savings_amount \<Longrightarrow> reachable (add_to_savings s savings_amount)"
| reach_update_goal:
    "reachable s \<Longrightarrow> 0 \<le> new_goal \<Longrightarrow> reachable (update_goal s new_goal)"
| reach_update_monthly_savings:
    "reachable s \<Longrightarrow> 0 \<le> new_monthly_savings \<Longrightarrow>
     reachable (update_monthly_savings s new_monthly_savings)"
| reach_apply_additional_payment:
    "reachable s \<Longrightarrow> 0 \<le> additional_payment \<Longrightarrow>
     selected_debt \<in> set (map creditor (debts s)) \<Longrightarrow>
     reachable (snd (apply_additional_payment s selected_debt additional_payment today))"

subsection \<open>The recurrence of the specification\<close>

text \<open>
  Section 4.1 of the specification, in its own words: one period takes
  (remaining_balance, total_interest, months) to the next such triple with
  interest = remaining_balance * monthly_rate, principal = min_payment - interest,
  remaining_balance -= principal, total_interest += interest, months += 1. This
  definition follows the specification, not the script; the script's loop is
  \<open>payoff_loop\<close>.
\<close>

definition spec_period :: "real \<Rightarrow> real \<Rightarrow> real \<times> real \<times> nat \<Rightarrow> real \<times> real \<times> nat" where
  "spec_period monthly_rate minimum =
     (\<lambda>(remaining_balance, total_interest, months).
        let interest = remaining_balance * monthly_rate;
            principal = minimum - interest
        in (remaining_balance - principal, total_interest + interest, months + 1))"

section \<open>Properties\<close>

subsection \<open>Helper facts about the payment\<close>

lemma selected_debt_details_creditor:
  "selected_debt_details s c = Some d \<Longrightarrow> creditor d = c \<and> d \<in> set (debts s)"
  unfolding selected_debt_details_def by (auto simp: find_Some_iff)

lemma find_map_amount_owed:
  "find (\<lambda>d. creditor d = c)
     (map (\<lambda>d. if creditor d = c then d\<lparr>amount_owed := a\<rparr> else d) xs) =
   map_option (\<lambda>d. d\<lparr>amount_owed := a\<rparr>) (find (\<lambda>d. creditor d = c) xs)"
  by (induction xs) auto

lemma selected_after_write:
  "selected_debt_details
     (s\<lparr>debts := map (\<lambda>d. if creditor d = c then d\<lparr>amount_owed := a\<rparr> else d) (debts s),
        debt_payments := ps, savings := sv\<rparr>) c =
   map_option (\<lambda>d. d\<lparr>amount_owed := a\<rparr>) (selected_debt_details s c)"
  by (simp add: selected_debt_details_def find_map_amount_owed)

text \<open>The accepted branch as one equation: the receipt and the three writes.\<close>

lemma apply_additional_payment_accepted:
  fixes d :: debt and P :: real
  defines "interest \<equiv> amount_owed d * ((interest_rate d / 100) / 12)"
  assumes "selected_debt_details s c = Some d" and "0 < P" and "interest \<le> P"
  shows "apply_additional_payment s c P today =
    (Inr \<lparr>interest_paid = interest, principal_paid = P - interest,
          new_amount_owed = amount_owed d - (P - interest)\<rparr>,
     s\<lparr>debts := map (\<lambda>x. if creditor x = c
                           then x\<lparr>amount_owed := amount_owed d - (P - interest)\<rparr>
                           else x) (debts s),
       debt_payments := debt_payments s @
          [\<lparr>debt_id = id_debts d, payment_amount = P, payment_date = today\<rparr>],
       savings := (savings s)\<lparr>saved_amount := saved_amount (savings s) - P\<rparr>\<rparr>)"
  using assms by (simp add: apply_additional_payment_def Let_def)

text \<open>A refused payment returns the store it was given.\<close>

lemma apply_additional_payment_refused:
  "fst (apply_additional_payment s c P today) = Inl e \<Longrightarrow>
   snd (apply_additional_payment s c P today) = s"
  by (auto simp add: apply_additional_payment_def Let_def split: option.splits if_splits)

text \<open>A payment is accepted exactly when it is positive and covers the interest.\<close>

lemma apply_additional_payment_Inr_iff:
  assumes "selected_debt_details s c = Some d"
  shows "(\<exists>rc. fst (apply_additional_payment s c P today) = Inr rc) \<longleftrightarrow>
     0 < P \<and> amount_owed d * ((interest_rate d / 100) / 12) \<le> P"
  using assms by (auto simp add: apply_additional_payment_def Let_def)

subsection \<open>C1: a payment above the interest\<close>

text \<open>
  Claim C1. For a debt with balance B and monthly rate r = interest_rate/100/12, an
  additional payment P with P > B * r is accepted: the interest part is B * r, the
  principal part is P - B * r, and the balance written to the selected debt is
  B - (P - B * r). The payment is positive, as the operation requires of its input (with
  B and the rate non-negative, P > B * r already says so). The instance is the scenario
  of the specification: B = 500, rate 24, P = 50 give interest 10, principal 40 and the
  new balance 460.
\<close>

theorem additional_payment_above_interest:
  fixes d :: debt and P :: real
  defines "B \<equiv> amount_owed d" and "r \<equiv> (interest_rate d / 100) / 12"
  assumes "selected_debt_details s c = Some d" and "0 < P" and "B * r < P"
  shows "\<exists>s'. apply_additional_payment s c P today =
           (Inr \<lparr>interest_paid = B * r, principal_paid = P - B * r,
                 new_amount_owed = B - (P - B * r)\<rparr>, s')
         \<and> map_option amount_owed (selected_debt_details s' c) = Some (B - (P - B * r))"
  using assms
  by (simp add: apply_additional_payment_accepted selected_after_write)

theorem additional_payment_above_interest_witness:
  "\<exists>s'. apply_additional_payment (add_debt initialize_db ''Visa'' 500 24 25)
           ''Visa'' 50 ''2025-03-01'' =
           (Inr \<lparr>interest_paid = 10, principal_paid = 40, new_amount_owed = 460\<rparr>, s')
         \<and> map_option amount_owed (selected_debt_details s' ''Visa'') = Some 460"
  using additional_payment_above_interest
    [of "add_debt initialize_db ''Visa'' 500 24 25" "''Visa''"
      "\<lparr>id_debts = 1, creditor = ''Visa'', amount_owed = 500, interest_rate = 24,
        min_payment = 25\<rparr>"
      50 "''2025-03-01''"]
  by (simp add: selected_debt_details_def add_debt_def initialize_db_def)

subsection \<open>C2: a payment below the interest\<close>

text \<open>
  Claim C2, as the script has it. The script refuses a payment when
  principal_payment < 0, that is when P < B * r. At P = B * r the principal part is 0,
  which is not below 0, and the payment is accepted: the balance stays, the payment is
  logged and the savings lose P. The counterexample is B = 1000, rate 24, P = 20.
\<close>

theorem payment_equal_to_interest_counterexample:
  "(20::real) \<le> 1000 * ((24 / 100) / 12) \<and>
   apply_additional_payment (add_debt initialize_db ''Visa'' 1000 24 25)
     ''Visa'' 20 ''2025-03-01'' =
   (Inr \<lparr>interest_paid = 20, principal_paid = 0, new_amount_owed = 1000\<rparr>,
    \<lparr>debts = [\<lparr>id_debts = 1, creditor = ''Visa'', amount_owed = 1000,
               interest_rate = 24, min_payment = 25\<rparr>],
     debt_payments = [\<lparr>debt_id = 1, payment_amount = 20, payment_date = ''2025-03-01''\<rparr>],
     savings = \<lparr>saved_amount = - 20, goal_amount = 0, monthly_savings = 0\<rparr>\<rparr>)"
  by (simp add: apply_additional_payment_def selected_debt_details_def add_debt_def
      initialize_db_def)

text \<open>
  Claim C2, amended. For a debt with balance B and monthly rate r, an additional payment
  P with P < B * r is refused and the store (debt balance, payment log, savings) is
  returned as it was: with InsufficientPayment when P is positive, with the warning for
  a payment that is not positive otherwise. The instance is the scenario of the
  specification: B = 1000, rate 24, P = 15 is refused with InsufficientPayment and the
  balance is still 1000.
\<close>

theorem additional_payment_below_interest:
  fixes d :: debt and P :: real
  defines "B \<equiv> amount_owed d" and "r \<equiv> (interest_rate d / 100) / 12"
  assumes "selected_debt_details s c = Some d" and "P < B * r"
  shows "apply_additional_payment s c P today =
           (Inl (if 0 < P then InsufficientPayment else InvalidInput), s)"
  using assms by (simp add: apply_additional_payment_def Let_def)

theorem additional_payment_below_interest_witness:
  "apply_additional_payment (add_debt initialize_db ''Visa'' 1000 24 25)
     ''Visa'' 15 ''2025-03-01'' =
   (Inl InsufficientPayment, add_debt initialize_db ''Visa'' 1000 24 25)
   \<and> map amount_owed (debts (add_debt initialize_db ''Visa'' 1000 24 25)) = [1000]"
  using additional_payment_below_interest
    [of "add_debt initialize_db ''Visa'' 1000 24 25" "''Visa''"
      "\<lparr>id_debts = 1, creditor = ''Visa'', amount_owed = 1000, interest_rate = 24,
        min_payment = 25\<rparr>"
      15 "''2025-03-01''"]
  by (simp add: selected_debt_details_def add_debt_def initialize_db_def)

subsection \<open>Helper facts about an accepted payment\<close>

lemma accepted_cases:
  assumes "selected_debt_details s c = Some d"
    and "apply_additional_payment s c P today = (Inr rc, s')"
  shows "0 < P \<and> amount_owed d * ((interest_rate d / 100) / 12) \<le> P"
  using assms by (auto simp add: apply_additional_payment_def Let_def split: if_splits)

lemma accepted_selected:
  assumes "apply_additional_payment s c P today = (Inr rc, s')"
  shows "\<exists>d. selected_debt_details s c = Some d"
  using assms by (auto simp add: apply_additional_payment_def split: option.splits)

lemma accepted_debts:
  assumes "apply_additional_payment s c P today = (Inr rc, s')"
  shows "debts s' =
    map (\<lambda>x. if creditor x = c then x\<lparr>amount_owed := new_amount_owed rc\<rparr> else x) (debts s)"
  using assms
  by (auto simp add: apply_additional_payment_def Let_def split: option.splits if_splits)

lemma accepted_log:
  assumes "selected_debt_details s c = Some d"
    and "apply_additional_payment s c P today = (Inr rc, s')"
  shows "debt_payments s' = debt_payments s @
           [\<lparr>debt_id = id_debts d, payment_amount = P, payment_date = today\<rparr>]"
    and "\<exists>a. selected_debt_details s' c = Some (d\<lparr>amount_owed := a\<rparr>)"
    and "savings s' = (savings s)\<lparr>saved_amount := saved_amount (savings s) - P\<rparr>"
  using assms
  by (auto simp add: apply_additional_payment_def Let_def selected_after_write
      split: if_splits)

lemma same_creditor_same_row:
  assumes "distinct (map creditor xs)" and "x \<in> set xs" and "y \<in> set xs"
    and "creditor x = creditor y"
  shows "x = y"
  using assms by (meson distinct_map inj_onD)

lemma write_one_row:
  assumes "distinct (map creditor xs)" and "i < length xs"
  shows "map (\<lambda>x. if creditor x = creditor (xs ! i) then x\<lparr>amount_owed := a\<rparr> else x) xs
       = xs[i := (xs ! i)\<lparr>amount_owed := a\<rparr>]"
    (is "?written = ?updated")
proof (rule nth_equalityI)
  show "length ?written = length ?updated" by simp
next
  fix j assume "j < length ?written"
  then have j: "j < length xs" by simp
  have "creditor (xs ! j) = creditor (xs ! i) \<longleftrightarrow> j = i"
    using assms j by (metis distinct_conv_nth length_map nth_map)
  then show "?written ! j = ?updated ! j"
    using j assms(2) by (auto simp: nth_list_update)
qed

lemma other_creditors_kept:
  "filter (\<lambda>x. creditor x \<noteq> c)
     (map (\<lambda>x. if creditor x = c then x\<lparr>amount_owed := a\<rparr> else x) xs)
   = filter (\<lambda>x. creditor x \<noteq> c) xs"
  by (induction xs) auto

subsection \<open>C7: the balance under a payment\<close>

text \<open>
  For the debt a payment selects, amount_owed never increases: a refused payment returns
  the store unchanged; an accepted one has a principal part of at least 0, fixed before
  anything is written, and the balance of the selected debt drops by exactly that part.
  Where creditor names are pairwise distinct the same holds row by row for the whole
  debts table.
\<close>

lemma selected_debt_amount_owed_never_increases:
  assumes "selected_debt_details s c = Some d"
    and "apply_additional_payment s c P today = (res, s')"
  shows "\<exists>d'. selected_debt_details s' c = Some d' \<and> amount_owed d' \<le> amount_owed d \<and>
     (case res of
        Inl e \<Rightarrow> s' = s
      | Inr rc \<Rightarrow> 0 \<le> principal_paid rc \<and>
                 amount_owed d' = amount_owed d - principal_paid rc) \<and>
     (distinct (map creditor (debts s)) \<longrightarrow>
        list_all2 (\<lambda>old new. amount_owed new \<le> amount_owed old) (debts s) (debts s'))"
proof (cases res)
  case (Inl e)
  with assms(2) have "s' = s"
    using apply_additional_payment_refused [of s c P today e] by simp
  with assms(1) Inl show ?thesis by (simp add: list_all2_same)
next
  case (Inr rc)
  let ?interest = "amount_owed d * ((interest_rate d / 100) / 12)"
  from Inr assms have ok: "0 < P" "?interest \<le> P"
    using accepted_cases by blast+
  from apply_additional_payment_accepted [OF assms(1) ok, of today] assms(2) Inr
  have rc: "principal_paid rc = P - ?interest"
    and new: "new_amount_owed rc = amount_owed d - (P - ?interest)"
    and s': "selected_debt_details s' c = Some (d\<lparr>amount_owed := new_amount_owed rc\<rparr>)"
    using assms(1) by (auto simp: selected_after_write)
  have rows: "list_all2 (\<lambda>old new. amount_owed new \<le> amount_owed old) (debts s) (debts s')"
    if dist: "distinct (map creditor (debts s))"
  proof -
    have "amount_owed (if creditor x = c then x\<lparr>amount_owed := new_amount_owed rc\<rparr> else x)
        \<le> amount_owed x" if x: "x \<in> set (debts s)" for x
    proof (cases "creditor x = c")
      case True
      with selected_debt_details_creditor [OF assms(1)] x dist have "x = d"
        by (metis same_creditor_same_row)
      with True new ok show ?thesis by simp
    next
      case False
      then show ?thesis by simp
    qed
    then show ?thesis
      using Inr assms(2) by (simp add: accepted_debts [of s c P today rc s']
          list_all2_map2 list_all2_same)
  qed
  from rc new s' ok rows Inr show ?thesis by simp
qed

text \<open>
  Claim C7 says that amount_owed never increases under payment application, for every
  debt. The script breaks this where two debts carry one creditor name. The new balance
  is computed from the first debt of the selected name (line 342) and the payment is
  logged under that debt's id (line 395), but line 391 writes the balance to every row
  with that name. With the debts Visa 500 (at 24 percent) and Visa 100, both entered
  through "Add Debt", an accepted payment of 50 on Visa has principal 40 and new
  balance 460, and the balance of the second debt goes from 100 up to 460.
\<close>

theorem unselected_debt_amount_owed_rises:
  "reachable (add_debt (add_debt initialize_db ''Visa'' 500 24 25) ''Visa'' 100 0 10)
   \<and> fst (apply_additional_payment
        (add_debt (add_debt initialize_db ''Visa'' 500 24 25) ''Visa'' 100 0 10)
        ''Visa'' 50 ''2025-03-01'')
     = Inr \<lparr>interest_paid = 10, principal_paid = 40, new_amount_owed = 460\<rparr>
   \<and> amount_owed
        (debts (add_debt (add_debt initialize_db ''Visa'' 500 24 25) ''Visa'' 100 0 10) ! 1)
     = 100
   \<and> amount_owed
        (debts (snd (apply_additional_payment
           (add_debt (add_debt initialize_db ''Visa'' 500 24 25) ''Visa'' 100 0 10)
           ''Visa'' 50 ''2025-03-01'')) ! 1)
     = 460"
proof -
  have "reachable (add_debt (add_debt initialize_db ''Visa'' 500 24 25) ''Visa'' 100 0 10)"
    by (intro reachable.intros) simp_all
  then show ?thesis
    by (simp add: apply_additional_payment_def selected_debt_details_def add_debt_def
        initialize_db_def)
qed

subsection \<open>C9: what an accepted payment writes\<close>

text \<open>
  What an accepted additional payment P does to the selected debt, the log and the
  savings row: the selected debt gets the new balance B - (P - B * r) and keeps its id,
  creditor, interest_rate and min_payment; one row with the id of that debt, the amount
  P and today's date is appended to the payment log; saved_amount drops by exactly P
  while goal_amount and monthly_savings stay. No row of the debts table changes its id,
  creditor, rate or minimum payment, and the debts of every other creditor are
  untouched. Nothing is said here about another debt with the same creditor name.
\<close>

lemma accepted_payment_effects_on_selected_debt:
  fixes d :: debt and P :: real
  defines "interest \<equiv> amount_owed d * ((interest_rate d / 100) / 12)"
  assumes "selected_debt_details s c = Some d"
    and "apply_additional_payment s c P today = (Inr rc, s')"
  shows "new_amount_owed rc = amount_owed d - (P - interest)
    \<and> selected_debt_details s' c = Some (d\<lparr>amount_owed := new_amount_owed rc\<rparr>)
    \<and> debt_payments s' = debt_payments s @
         [\<lparr>debt_id = id_debts d, payment_amount = P, payment_date = today\<rparr>]
    \<and> savings s' = (savings s)\<lparr>saved_amount := saved_amount (savings s) - P\<rparr>
    \<and> map id_debts (debts s') = map id_debts (debts s)
    \<and> map creditor (debts s') = map creditor (debts s)
    \<and> map interest_rate (debts s') = map interest_rate (debts s)
    \<and> map min_payment (debts s') = map min_payment (debts s)
    \<and> filter (\<lambda>x. creditor x \<noteq> c) (debts s') = filter (\<lambda>x. creditor x \<noteq> c) (debts s)"
proof -
  have ok: "0 < P" "interest \<le> P"
    using accepted_cases [OF assms(2,3)] by (simp_all add: interest_def)
  from apply_additional_payment_accepted [OF assms(2) ok(1), of today] ok(2) assms(3)
  have rc: "rc = \<lparr>interest_paid = interest, principal_paid = P - interest,
                  new_amount_owed = amount_owed d - (P - interest)\<rparr>"
    and s': "s' = s\<lparr>debts := map (\<lambda>x. if creditor x = c
                           then x\<lparr>amount_owed := amount_owed d - (P - interest)\<rparr>
                           else x) (debts s),
       debt_payments := debt_payments s @
          [\<lparr>debt_id = id_debts d, payment_amount = P, payment_date = today\<rparr>],
       savings := (savings s)\<lparr>saved_amount := saved_amount (savings s) - P\<rparr>\<rparr>"
    by (simp_all add: interest_def)
  show ?thesis
    unfolding s' rc using assms(2)
    by (simp add: selected_after_write other_creditors_kept comp_def if_distrib
        cong: if_cong)
qed

text \<open>
  Claim C9 says that an accepted additional payment has exactly three effects: the
  balance of the debt, one new row in the payment log, and saved_amount lowered by P.
  The script has a fourth effect where two debts carry one creditor name, because
  line 391 updates by creditor name while line 395 logs by id. With 80 saved and the
  debts Visa 500 (at 24 percent) and Visa 100, a payment of 50 on Visa sets the first
  debt to 460, logs one row for debt 1, lowers the savings to 30, and also rewrites
  amount_owed of debt 2 from 100 to 460.
\<close>

theorem accepted_payment_rewrites_second_debt:
  "debts (add_debt (add_debt (add_to_savings initialize_db 80) ''Visa'' 500 24 25)
        ''Visa'' 100 0 10) =
     [\<lparr>id_debts = 1, creditor = ''Visa'', amount_owed = 500,
       interest_rate = 24, min_payment = 25\<rparr>,
      \<lparr>id_debts = 2, creditor = ''Visa'', amount_owed = 100,
       interest_rate = 0, min_payment = 10\<rparr>]
   \<and> apply_additional_payment
     (add_debt (add_debt (add_to_savings initialize_db 80) ''Visa'' 500 24 25)
        ''Visa'' 100 0 10)
     ''Visa'' 50 ''2025-03-01'' =
   (Inr \<lparr>interest_paid = 10, principal_paid = 40, new_amount_owed = 460\<rparr>,
    \<lparr>debts = [\<lparr>id_debts = 1, creditor = ''Visa'', amount_owed = 460,
               interest_rate = 24, min_payment = 25\<rparr>,
              \<lparr>id_debts = 2, creditor = ''Visa'', amount_owed = 460,
               interest_rate = 0, min_payment = 10\<rparr>],
     debt_payments = [\<lparr>debt_id = 1, payment_amount = 50, payment_date = ''2025-03-01''\<rparr>],
     savings = \<lparr>saved_amount = 30, goal_amount = 0, monthly_savings = 0\<rparr>\<rparr>)"
  by (simp add: apply_additional_payment_def selected_debt_details_def add_debt_def
      add_to_savings_def initialize_db_def)

subsection \<open>C10: creditor names\<close>

text \<open>
  Claim C10, as the script has it. "Add Debt" inserts whatever name is typed, so the
  same creditor can be entered twice: the store below is reachable and holds two debts
  called Visa, with balances 500 and 100. A payment of 50 selected by that name then
  touches both rows, which leaves 460 and 460, so it does not affect exactly one debt
  record.
\<close>

theorem creditor_not_unique_counterexample:
  "reachable (add_debt (add_debt initialize_db ''Visa'' 500 24 25) ''Visa'' 100 0 10)
   \<and> map creditor
       (debts (add_debt (add_debt initialize_db ''Visa'' 500 24 25) ''Visa'' 100 0 10))
     = [''Visa'', ''Visa'']
   \<and> map amount_owed
       (debts (add_debt (add_debt initialize_db ''Visa'' 500 24 25) ''Visa'' 100 0 10))
     = [500, 100]
   \<and> map amount_owed (debts (snd (apply_additional_payment
         (add_debt (add_debt initialize_db ''Visa'' 500 24 25) ''Visa'' 100 0 10)
         ''Visa'' 50 ''2025-03-01''))) = [460, 460]"
proof -
  have "reachable (add_debt (add_debt initialize_db ''Visa'' 500 24 25) ''Visa'' 100 0 10)"
    by (intro reachable.intros) simp_all
  then show ?thesis
    by (simp add: apply_additional_payment_def selected_debt_details_def add_debt_def
        initialize_db_def)
qed

text \<open>
  Claim C10, amended. creditor is the name a debt is selected by, and nothing enforces
  that it is unique: debt creation appends the record under the name given, so the
  creditor names of a store stay pairwise distinct exactly when they were distinct and
  the new name is not in the table yet. Payment application changes no creditor name,
  and in a store whose creditor names are pairwise distinct its balance update affects
  exactly one debt record, the selected one.
\<close>

theorem distinct_creditors_one_row_written:
  assumes "apply_additional_payment s c P today = (Inr rc, s')"
  shows "(distinct (map creditor (debts (add_debt s0 name amount rate minimum))) \<longleftrightarrow>
            distinct (map creditor (debts s0)) \<and> name \<notin> set (map creditor (debts s0)))
    \<and> map creditor (debts s') = map creditor (debts s)
    \<and> (distinct (map creditor (debts s)) \<longrightarrow>
         (\<exists>i<length (debts s).
            selected_debt_details s c = Some (debts s ! i) \<and>
            debts s' = (debts s)[i := (debts s ! i)\<lparr>amount_owed := new_amount_owed rc\<rparr>]))"
proof -
  have added: "distinct (map creditor (debts (add_debt s0 name amount rate minimum))) \<longleftrightarrow>
      distinct (map creditor (debts s0)) \<and> name \<notin> set (map creditor (debts s0))"
    by (auto simp add: add_debt_def)
  note w = accepted_debts [OF assms]
  have m: "map creditor (debts s') = map creditor (debts s)"
    unfolding w by (simp add: comp_def if_distrib cong: if_cong)
  obtain d where d: "selected_debt_details s c = Some d"
    using accepted_selected [OF assms] by blast
  then obtain i where i: "i < length (debts s)" "creditor (debts s ! i) = c" "d = debts s ! i"
    unfolding selected_debt_details_def find_Some_iff by blast
  have "debts s' = (debts s)[i := (debts s ! i)\<lparr>amount_owed := new_amount_owed rc\<rparr>]"
    if "distinct (map creditor (debts s))"
    using write_one_row [OF that i(1)] w i(2) by simp
  with i d m added show ?thesis by blast
qed

theorem distinct_creditors_one_row_written_witness:
  "map creditor
     (debts (add_debt (add_debt initialize_db ''Visa'' 500 24 25) ''Amex'' 100 0 10))
     = [''Visa'', ''Amex'']
   \<and> map amount_owed
     (debts (add_debt (add_debt initialize_db ''Visa'' 500 24 25) ''Amex'' 100 0 10))
     = [500, 100]
   \<and> map amount_owed (debts (snd (apply_additional_payment
         (add_debt (add_debt initialize_db ''Visa'' 500 24 25) ''Amex'' 100 0 10)
         ''Visa'' 50 ''2025-03-01''))) = [460, 100]"
proof -
  let ?s = "add_debt (add_debt initialize_db ''Visa'' 500 24 25) ''Amex'' 100 0 10"
  let ?run = "apply_additional_payment ?s ''Visa'' 50 ''2025-03-01''"
  have run: "?run = (Inr \<lparr>interest_paid = 10, principal_paid = 40, new_amount_owed = 460\<rparr>,
                     snd ?run)"
    by (simp add: apply_additional_payment_def selected_debt_details_def add_debt_def
        initialize_db_def)
  from distinct_creditors_one_row_written [OF run, of initialize_db "''Visa''" 500 24 25]
  show ?thesis
    by (auto simp add: add_debt_def initialize_db_def less_Suc_eq numeral_2_eq_2
        selected_debt_details_def)
qed

subsection \<open>C6: the payment log holds the gross amounts\<close>

lemma apply_payments_log:
  assumes "selected_debt_details s c = Some d" and "apply_payments s c ps = (accepted, s')"
  shows "debt_payments s' = debt_payments s @
           map (\<lambda>(P, today). \<lparr>debt_id = id_debts d, payment_amount = P,
                               payment_date = today\<rparr>) accepted"
  using assms
proof (induction ps arbitrary: s d accepted)
  case Nil
  then show ?case by simp
next
  case (Cons p ps)
  obtain P today where p: "p = (P, today)" by (cases p)
  obtain res s1 where step: "apply_additional_payment s c P today = (res, s1)"
    by (cases "apply_additional_payment s c P today")
  show ?case
  proof (cases res)
    case (Inl e)
    then have "s1 = s"
      using apply_additional_payment_refused [of s c P today e] step by simp
    with Cons.prems p step Inl have "apply_payments s c ps = (accepted, s')" by simp
    from Cons.IH [OF Cons.prems(1) this] show ?thesis .
  next
    case (Inr rc)
    obtain acc where rest: "apply_payments s1 c ps = (acc, s')"
      and acc: "accepted = (P, today) # acc"
      using Cons.prems(2) p step Inr by (auto split: prod.splits)
    from accepted_log [OF Cons.prems(1)] step Inr
    have log: "debt_payments s1 = debt_payments s @
        [\<lparr>debt_id = id_debts d, payment_amount = P, payment_date = today\<rparr>]"
      and "\<exists>a. selected_debt_details s1 c = Some (d\<lparr>amount_owed := a\<rparr>)"
      by simp_all
    then obtain a where "selected_debt_details s1 c = Some (d\<lparr>amount_owed := a\<rparr>)"
      by blast
    from Cons.IH [OF this rest] log acc show ?thesis by simp
  qed
qed

text \<open>
  Claim C6. Every accepted additional payment appends exactly one row to the payment
  log, and the row stores the whole payment, not its principal part. So after any
  sequence of payment attempts on a debt the log is the old log followed by one row per
  accepted payment, in order, each with the gross amount and its date, and the sum of
  the amounts recorded for the debt has grown by the sum of the gross amounts accepted;
  the split into interest and principal does not enter.
\<close>

theorem payment_log_records_gross_amounts:
  assumes "selected_debt_details s c = Some d"
    and "apply_payments s c ps = (accepted, s')"
  shows "debt_payments s' = debt_payments s @
           map (\<lambda>(P, today). \<lparr>debt_id = id_debts d, payment_amount = P,
                               payment_date = today\<rparr>) accepted
    \<and> total_debt_payments s' (id_debts d) =
        total_debt_payments s (id_debts d) + sum_list (map fst accepted)"
proof -
  have "sum_list (map payment_amount (filter (\<lambda>p. debt_id p = i)
          (map (\<lambda>(P, today). \<lparr>debt_id = i, payment_amount = P, payment_date = today\<rparr>) xs)))
        = sum_list (map fst xs)" for i and xs :: "(real \<times> string) list"
    by (induction xs) auto
  with apply_payments_log [OF assms] show ?thesis
    by (simp add: total_debt_payments_def)
qed

theorem payment_log_records_gross_amounts_witness:
  "apply_payments (add_debt initialize_db ''Visa'' 500 24 25) ''Visa''
     [(50, ''2025-03-01''), (5, ''2025-04-01''), (100, ''2025-05-01'')] =
     ([(50, ''2025-03-01''), (100, ''2025-05-01'')],
      \<lparr>debts = [\<lparr>id_debts = 1, creditor = ''Visa'', amount_owed = 1846 / 5,
                 interest_rate = 24, min_payment = 25\<rparr>],
       debt_payments =
         [\<lparr>debt_id = 1, payment_amount = 50, payment_date = ''2025-03-01''\<rparr>,
          \<lparr>debt_id = 1, payment_amount = 100, payment_date = ''2025-05-01''\<rparr>],
       savings = \<lparr>saved_amount = - 150, goal_amount = 0, monthly_savings = 0\<rparr>\<rparr>)
   \<and> total_debt_payments
       \<lparr>debts = [\<lparr>id_debts = 1, creditor = ''Visa'', amount_owed = 1846 / 5,
                  interest_rate = 24, min_payment = 25\<rparr>],
        debt_payments =
          [\<lparr>debt_id = 1, payment_amount = 50, payment_date = ''2025-03-01''\<rparr>,
           \<lparr>debt_id = 1, payment_amount = 100, payment_date = ''2025-05-01''\<rparr>],
        savings = \<lparr>saved_amount = - 150, goal_amount = 0, monthly_savings = 0\<rparr>\<rparr> 1 = 150"
proof -
  have run: "apply_payments (add_debt initialize_db ''Visa'' 500 24 25) ''Visa''
     [(50, ''2025-03-01''), (5, ''2025-04-01''), (100, ''2025-05-01'')] =
     ([(50, ''2025-03-01''), (100, ''2025-05-01'')],
      \<lparr>debts = [\<lparr>id_debts = 1, creditor = ''Visa'', amount_owed = 1846 / 5,
                 interest_rate = 24, min_payment = 25\<rparr>],
       debt_payments =
         [\<lparr>debt_id = 1, payment_amount = 50, payment_date = ''2025-03-01''\<rparr>,
          \<lparr>debt_id = 1, payment_amount = 100, payment_date = ''2025-05-01''\<rparr>],
       savings = \<lparr>saved_amount = - 150, goal_amount = 0, monthly_savings = 0\<rparr>\<rparr>)"
    by (simp add: apply_additional_payment_def selected_debt_details_def add_debt_def
        initialize_db_def Let_def)
  have sel: "selected_debt_details (add_debt initialize_db ''Visa'' 500 24 25) ''Visa'' =
     Some \<lparr>id_debts = 1, creditor = ''Visa'', amount_owed = 500, interest_rate = 24,
           min_payment = 25\<rparr>"
    by (simp add: selected_debt_details_def add_debt_def initialize_db_def)
  from payment_log_records_gross_amounts [OF sel run] run show ?thesis
    by (simp add: total_debt_payments_def add_debt_def initialize_db_def)
qed

subsection \<open>C8: the savings row\<close>

lemma reachable_savings:
  "reachable s \<Longrightarrow>
     0 \<le> goal_amount (savings s) \<and> 0 \<le> monthly_savings (savings s) \<and>
     0 \<le> saved_amount (savings s) + sum_list (map payment_amount (debt_payments s))"
proof (induction rule: reachable.induct)
  case reach_initialize_db
  then show ?case by (simp add: initialize_db_def)
next
  case (reach_add_debt s amount rate minimum creditor_name)
  then show ?case by (simp add: add_debt_def)
next
  case (reach_add_to_savings s savings_amount)
  then show ?case by (simp add: add_to_savings_def)
next
  case (reach_update_goal s new_goal)
  then show ?case by (simp add: update_goal_def)
next
  case (reach_update_monthly_savings s new_monthly_savings)
  then show ?case by (simp add: update_monthly_savings_def)
next
  case (reach_apply_additional_payment s additional_payment selected_debt today)
  then show ?case
    by (auto simp add: apply_additional_payment_def Let_def split: option.splits)
qed

text \<open>
  Claim C8, as the script has it. The payment is deducted from saved_amount whatever the
  savings hold. With nothing saved, a debt of 500 at 24 percent and an accepted payment
  of 50, the store that is reached has saved_amount = -50.
\<close>

theorem saved_amount_negative_counterexample:
  "reachable (snd (apply_additional_payment (add_debt initialize_db ''Visa'' 500 24 25)
      ''Visa'' 50 ''2025-03-01''))
   \<and> saved_amount (savings (snd (apply_additional_payment
        (add_debt initialize_db ''Visa'' 500 24 25) ''Visa'' 50 ''2025-03-01''))) = - 50"
proof -
  have "reachable (add_debt initialize_db ''Visa'' 500 24 25)"
    by (intro reachable.intros) simp_all
  then have "reachable (snd (apply_additional_payment
      (add_debt initialize_db ''Visa'' 500 24 25) ''Visa'' 50 ''2025-03-01''))"
    by (rule reach_apply_additional_payment) (simp_all add: add_debt_def initialize_db_def)
  then show ?thesis
    by (simp add: apply_additional_payment_def selected_debt_details_def add_debt_def
        initialize_db_def)
qed

text \<open>
  Claim C8, amended. In every reachable state goal_amount and monthly_savings are
  non-negative, and saved_amount is at least minus the sum of all recorded debt
  payments. Applying an additional payment leaves goal_amount and monthly_savings as
  they were; a refused payment leaves the savings row unchanged, and an accepted payment
  P lowers saved_amount by exactly P, so the result is non-negative exactly when P is at
  most the amount saved.
\<close>

theorem savings_row_in_reachable_states:
  assumes "reachable s"
  shows "0 \<le> goal_amount (savings s) \<and> 0 \<le> monthly_savings (savings s)
     \<and> 0 \<le> saved_amount (savings s) + sum_list (map payment_amount (debt_payments s))
     \<and> (case apply_additional_payment s c P today of
          (Inl e, s') \<Rightarrow> savings s' = savings s
        | (Inr rc, s') \<Rightarrow>
            saved_amount (savings s') = saved_amount (savings s) - P
            \<and> goal_amount (savings s') = goal_amount (savings s)
            \<and> monthly_savings (savings s') = monthly_savings (savings s)
            \<and> (0 \<le> saved_amount (savings s') \<longleftrightarrow> P \<le> saved_amount (savings s)))"
  using reachable_savings [OF assms]
  by (auto simp add: apply_additional_payment_def Let_def split: option.splits)

theorem savings_row_in_reachable_states_witness:
  "savings (update_goal (add_to_savings initialize_db 80) 1000)
     = \<lparr>saved_amount = 80, goal_amount = 1000, monthly_savings = 0\<rparr>
   \<and> savings (snd (apply_additional_payment
        (add_debt (update_goal (add_to_savings initialize_db 80) 1000) ''Visa'' 500 24 25)
        ''Visa'' 50 ''2025-03-01''))
     = \<lparr>saved_amount = 30, goal_amount = 1000, monthly_savings = 0\<rparr>"
proof -
  have "reachable (add_debt (update_goal (add_to_savings initialize_db 80) 1000)
      ''Visa'' 500 24 25)"
    by (intro reachable.intros) simp_all
  from savings_row_in_reachable_states
    [OF this, where c = "''Visa''" and P = 50 and today = "''2025-03-01''"]
  show ?thesis
    by (simp add: apply_additional_payment_def selected_debt_details_def add_debt_def
        update_goal_def add_to_savings_def initialize_db_def)
qed

subsection \<open>The pay-off loop, one round at a time\<close>

lemma payoff_loop_stop: "\<not> 0 < b \<Longrightarrow> payoff_loop r m b k ti = Some (k, ti)"
  by (subst payoff_loop.simps) simp

lemma payoff_loop_round:
  "0 < b \<Longrightarrow>
   payoff_loop r m b k ti = payoff_loop r m (b - (m - b * r)) (k + 1) (ti + b * r)"
  by (subst payoff_loop.simps) (simp add: Let_def)

text \<open>
  A balance that is positive with a payment that does not exceed the interest on it
  stays so after a round: the balance does not shrink, and neither does the interest.
  No run from such a state returns.
\<close>

lemma payoff_loop_never_returns:
  assumes "payoff_loop r m b k ti = Some y"
  shows "0 \<le> r \<longrightarrow> \<not> (0 < b \<and> m \<le> b * r)"
proof (induct rule: payoff_loop.raw_induct [OF _ assms])
  case (1 f r m b k ti y)
  show ?case
  proof (intro impI notI)
    assume r: "0 \<le> r" and inv: "0 < b \<and> m \<le> b * r"
    let ?b' = "b - (m - b * r)"
    from inv "1.hyps"(2) have next_round: "f r m ?b' (k + 1) (ti + b * r) = Some y"
      by (simp add: Let_def)
    have "b \<le> ?b'" using inv by simp
    moreover from this r have "b * r \<le> ?b' * r" by (rule mult_right_mono)
    ultimately have "0 < ?b' \<and> m \<le> ?b' * r" using inv by linarith
    with "1.hyps"(1) [OF next_round] r show False by blast
  qed
qed

lemma payoff_loop_diverges:
  assumes "0 < b" and "0 \<le> r" and "m \<le> b * r"
  shows "payoff_loop r m b k ti = None"
proof (cases "payoff_loop r m b k ti")
  case None
  then show ?thesis .
next
  case (Some y)
  from payoff_loop_never_returns [OF Some] assms show ?thesis by blast
qed

text \<open>
  When every round pays off at least d > 0 of the balance, a balance of at most n * d
  is gone after at most n rounds. The interest of a round is not negative, and a round
  is counted whenever the balance was positive.
\<close>

lemma payoff_loop_returns:
  assumes "0 \<le> r" and "0 < d"
  shows "b \<le> real n * d \<Longrightarrow> b * r + d \<le> m \<Longrightarrow>
     \<exists>k' ti'. payoff_loop r m b k ti = Some (k', ti') \<and> ti \<le> ti' \<and>
        (if 0 < b then k < k' else k' = k \<and> ti' = ti)"
proof (induction n arbitrary: b k ti)
  case 0
  then have "\<not> 0 < b" by simp
  then show ?case by (simp add: payoff_loop_stop)
next
  case (Suc n)
  show ?case
  proof (cases "0 < b")
    case False
    then show ?thesis by (simp add: payoff_loop_stop)
  next
    case True
    let ?b' = "b - (m - b * r)"
    have paid: "d \<le> m - b * r" using Suc.prems(2) by simp
    then have le: "?b' \<le> b - d" by simp
    have "b - d \<le> real n * d" using Suc.prems(1) by (simp add: algebra_simps)
    with le have bound: "?b' \<le> real n * d" by linarith
    have "?b' \<le> b" using paid \<open>0 < d\<close> by linarith
    then have "?b' * r \<le> b * r" using \<open>0 \<le> r\<close> by (rule mult_right_mono)
    then have cover: "?b' * r + d \<le> m" using Suc.prems(2) by linarith
    from Suc.IH [OF bound cover, of "k + 1" "ti + b * r"]
    obtain k' ti' where res: "payoff_loop r m ?b' (k + 1) (ti + b * r) = Some (k', ti')"
      and ti: "ti + b * r \<le> ti'"
      and k: "if 0 < ?b' then k + 1 < k' else k' = k + 1 \<and> ti' = ti + b * r"
      by blast
    have "0 \<le> b * r" using True \<open>0 \<le> r\<close> by simp
    with ti have "ti \<le> ti'" by linarith
    moreover from k have "k < k'" by (auto split: if_splits)
    ultimately show ?thesis using True res by (simp add: payoff_loop_round)
  qed
qed

subsection \<open>C3: a minimum payment that does not exceed the interest\<close>

text \<open>
  Claim C3 asks that a debt with amount_owed > 0 and
  min_payment <= amount_owed * (interest_rate/100/12) is refused with a NonTerminating
  error. The script has no such check. What it does: with a positive minimum payment it
  enters the loop and never leaves it, so the calculator does not return (\<open>None\<close>); a
  minimum payment that is not positive gets the warning instead. The instance is
  amount_owed = 1000, interest_rate = 24, min_payment = 15: the interest of the first
  month is 20 and the balance grows by 5, then by more each month.
\<close>

theorem payoff_never_ends_below_interest:
  assumes "0 < amount" and "0 < minimum" and "minimum \<le> amount * ((rate / 100) / 12)"
  shows "time_to_pay_off amount rate minimum = None"
proof -
  have "0 < amount * ((rate / 100) / 12)" using assms by linarith
  with \<open>0 < amount\<close> have "0 < (rate / 100) / 12"
    by (simp add: zero_less_mult_iff)
  then have "payoff_loop ((rate / 100) / 12) minimum amount 0 0 = None"
    using assms by (intro payoff_loop_diverges) simp_all
  with \<open>0 < minimum\<close> show ?thesis by (simp add: time_to_pay_off_def)
qed

theorem payoff_never_ends_below_interest_witness:
  "time_to_pay_off 1000 24 15 = None"
  using payoff_never_ends_below_interest [of 1000 15 24] by simp

subsection \<open>Binary64 rounding\<close>

text \<open>
  \<open>binade\<close> is the exponent of its argument, and \<open>round64\<close> returns a multiple of the
  spacing that is at most half a spacing away. On 1/10 it gives the binary64 number
  that Python prints as 0.1, and 2^53 + 1, half way between two neighbours, goes to the
  even one.
\<close>

lemma round_half_even_nearest: "\<bar>of_int (round_half_even x) - x\<bar> \<le> 1 / 2"
  unfolding round_half_even_def Let_def by (auto simp: abs_le_iff)

lemma two_powi_minus:
  assumes "0 \<le> k"
  shows "2 powi (- k) = 1 / (2::real) ^ nat k"
proof -
  have "(2::real) powi (- k) = inverse (2 powi k)" by (rule power_int_minus)
  also have "(2::real) powi k = 2 ^ nat k" using assms by (simp only: power_int_def if_True)
  finally show ?thesis by (simp only: inverse_eq_divide)
qed

lemma binade_bounds:
  assumes "0 < x"
  shows "2 powi binade x \<le> x \<and> x < 2 powi (binade x + 1)"
proof (cases "1 \<le> x")
  case True
  let ?m = "\<lfloor>x\<rfloor>"
  have m: "0 < ?m" using True by linarith
  from bitlen_bounds [OF m]
  have lo: "2 ^ nat (bitlen ?m - 1) \<le> ?m" and hi: "?m < 2 ^ nat (bitlen ?m)"
    by simp_all
  have b: "1 \<le> bitlen ?m" using m by (auto simp: bitlen_alt_def)
  have "2 powi (bitlen ?m - 1) = (2::real) ^ nat (bitlen ?m - 1)"
    using b by (simp add: power_int_def)
  also have "\<dots> = of_int (2 ^ nat (bitlen ?m - 1))" by simp
  also have "\<dots> \<le> of_int ?m" using lo by (simp only: of_int_le_iff)
  also have "\<dots> \<le> x" by simp
  finally have below: "2 powi (bitlen ?m - 1) \<le> x" .
  from hi have "?m + 1 \<le> 2 ^ nat (bitlen ?m)" by simp
  then have "of_int (?m + 1) \<le> (of_int (2 ^ nat (bitlen ?m)) :: real)"
    by (simp only: of_int_le_iff)
  moreover have "x < of_int (?m + 1)" by linarith
  ultimately have "x < of_int (2 ^ nat (bitlen ?m))" by linarith
  then have "x < (2::real) ^ nat (bitlen ?m)" by simp
  also have "\<dots> = 2 powi (bitlen ?m - 1 + 1)" using b by (simp add: power_int_def)
  finally have above: "x < 2 powi (bitlen ?m - 1 + 1)" .
  from below above True show ?thesis by (simp add: binade_def)
next
  case False
  let ?y = "1 / x"
  let ?m = "\<lceil>?y\<rceil>"
  let ?n = "bitlen (?m - 1)"
  have y: "1 < ?y" using assms False by simp
  then have m: "0 < ?m - 1" by linarith
  from bitlen_bounds [OF m]
  have lo: "2 ^ nat (?n - 1) \<le> ?m - 1" and hi: "?m - 1 < 2 ^ nat ?n"
    by simp_all
  have n: "1 \<le> ?n" using m by (auto simp: bitlen_alt_def)
  from hi have "?m \<le> 2 ^ nat ?n" by simp
  then have "of_int ?m \<le> (of_int (2 ^ nat ?n) :: real)" by (simp only: of_int_le_iff)
  moreover have "?y \<le> of_int ?m" by simp
  ultimately have "?y \<le> of_int (2 ^ nat ?n)" by linarith
  then have "?y \<le> 2 ^ nat ?n" by simp
  then have "1 / 2 ^ nat ?n \<le> x" using assms
    by (simp add: field_simps)
  moreover have "2 powi (- ?n) = 1 / (2::real) ^ nat ?n"
    using n by (simp add: two_powi_minus)
  ultimately have below: "2 powi (- ?n) \<le> x" by simp
  from lo have "(of_int (2 ^ nat (?n - 1)) :: real) \<le> of_int (?m - 1)"
    by (simp only: of_int_le_iff)
  moreover have "of_int (?m - 1) < ?y" by linarith
  ultimately have "of_int (2 ^ nat (?n - 1)) < ?y" by linarith
  then have "2 ^ nat (?n - 1) < ?y" by simp
  then have "x < 1 / 2 ^ nat (?n - 1)" using assms
    by (simp add: field_simps)
  moreover have "2 powi (- ?n + 1) = 1 / (2::real) ^ nat (?n - 1)"
    using n two_powi_minus [of "?n - 1"] by simp
  ultimately have above: "x < 2 powi (- ?n + 1)" by simp
  from below above False show ?thesis by (simp add: binade_def)
qed

lemma round64_nearest:
  "\<bar>round64 x - x\<bar> \<le> 2 powi (max (binade \<bar>x\<bar>) (- 1022) - 52) / 2"
proof (cases "x = 0")
  case True
  then show ?thesis by (simp add: round64_def)
next
  case False
  define u :: real where "u = 2 powi (max (binade \<bar>x\<bar>) (- 1022) - 52)"
  have u: "0 < u" unfolding u_def by simp
  have "round64 x - x = (of_int (round_half_even (x / u)) - x / u) * u"
    using False u by (simp add: round64_def Let_def u_def [symmetric] algebra_simps)
  then have "\<bar>round64 x - x\<bar> = \<bar>of_int (round_half_even (x / u)) - x / u\<bar> * u"
    using u by (simp add: abs_mult)
  also have "\<dots> \<le> (1 / 2) * u"
    using round_half_even_nearest [of "x / u"] u by (intro mult_right_mono) simp_all
  finally show ?thesis by (simp add: u_def)
qed

lemma round64_examples:
  "round64 (1 / 10) = 3602879701896397 / 2 ^ 55"
  "round64 (2 ^ 53 + 1) = 2 ^ 53"
  "round64 (2 ^ 53 + 3) = 2 ^ 53 + 4"
  by code_simp+

lemma round64_values:
  "round64 0 = 0" "round64 1 = 1"
  "round64 100000000000000000 = 100000000000000000"
  "round64 99999999999999999 = 100000000000000000"
  by code_simp+

text \<open>
  With rate 0 and a payment of 1, a balance of 10^17 is a fixed point of the rounded
  loop body: no run from there returns.
\<close>

lemma payoff_loop64_stuck_step:
  assumes "payoff_loop64 r m b k ti = Some y"
  shows "\<not> (r = 0 \<and> m = 1 \<and> b = 10 ^ 17 \<and> ti = 0)"
proof (induct rule: payoff_loop64.raw_induct [OF _ assms])
  case (1 f r m b k ti y)
  show ?case
  proof
    assume at: "r = 0 \<and> m = 1 \<and> b = 10 ^ 17 \<and> ti = 0"
    with "1.hyps"(2) have "f 0 1 (10 ^ 17) (k + 1) 0 = Some y"
      by (simp add: Let_def round64_values)
    from "1.hyps"(1) [OF this] show False by simp
  qed
qed

lemma payoff_loop64_stuck: "payoff_loop64 0 1 (10 ^ 17) k 0 = None"
proof (cases "payoff_loop64 0 1 (10 ^ 17) k 0")
  case None
  then show ?thesis .
next
  case (Some y)
  from payoff_loop64_stuck_step [OF Some] show ?thesis by simp
qed

subsection \<open>C4: a minimum payment above the first interest\<close>

text \<open>
  In exact arithmetic the loop does return when amount_owed >= 0, interest_rate >= 0
  and the minimum payment is strictly above the interest of the first period: every
  round then pays off at least min_payment minus that interest. It holds in exact
  arithmetic only: the script's subtraction rounds, and there the balance can stop
  moving, as the binary64 loop below shows.
\<close>

lemma payoff_returns_in_exact_arithmetic:
  assumes "0 \<le> amount" and "0 \<le> rate" and "amount * ((rate / 100) / 12) < minimum"
  shows "\<exists>months total_interest.
     time_to_pay_off amount rate minimum = Some (Inr (months, total_interest)) \<and>
     0 \<le> total_interest \<and> (if amount = 0 then months = 0 else 1 \<le> months)"
proof -
  let ?r = "(rate / 100) / 12"
  let ?d = "minimum - amount * ?r"
  have r: "0 \<le> ?r" using \<open>0 \<le> rate\<close> by simp
  have d: "0 < ?d" using assms(3) by simp
  have "0 \<le> amount * ?r" using \<open>0 \<le> amount\<close> r by (rule mult_nonneg_nonneg)
  with assms(3) have pos: "0 < minimum" by linarith
  define n where "n = nat \<lceil>amount / ?d\<rceil>"
  have "amount / ?d \<le> real n" unfolding n_def by linarith
  then have bound: "amount \<le> real n * ?d" using d by (simp add: pos_divide_le_eq)
  have cover: "amount * ?r + ?d \<le> minimum" by simp
  from payoff_loop_returns [OF r d bound cover, of 0 0]
  obtain k' ti' where "payoff_loop ?r minimum amount 0 0 = Some (k', ti')" and "0 \<le> ti'"
    and "if 0 < amount then 0 < k' else k' = 0 \<and> ti' = 0"
    by blast
  with pos \<open>0 \<le> amount\<close> show ?thesis
    by (auto simp add: time_to_pay_off_def split: if_splits)
qed

text \<open>
  Claim C4 says that for amount_owed >= 0, interest_rate >= 0 and a minimum payment
  strictly above the interest of the first period the calculator ends, with
  total_interest >= 0 and months >= 1. The script does not end for amount_owed = 10^17,
  interest_rate = 0 and min_payment = 1. The three numbers are binary64 numbers and meet
  the hypotheses (the first interest is 0). The principal of a round is 1, but binary64
  numbers near 10^17 are 16 apart, so 10^17 - 1 rounds back to 10^17: the balance never
  changes, the loop never sees a balance <= 0, and the calculator does not return.
\<close>

theorem payoff_never_ends_at_large_balance:
  "round64 (10 ^ 17) = 10 ^ 17
   \<and> (0::real) \<le> 10 ^ 17 \<and> (0::real) \<le> 0 \<and> 10 ^ 17 * ((0 / 100) / 12) < (1::real)
   \<and> round64 (10 ^ 17 - round64 (1 - round64 (10 ^ 17 * round64 (round64 (0 / 100) / 12))))
       = 10 ^ 17
   \<and> time_to_pay_off64 (10 ^ 17) 0 1 = None"
  using payoff_loop64_stuck [of 0] by (simp add: time_to_pay_off64_def round64_values)

subsection \<open>C5: the loop and the recurrence of the specification\<close>

lemma spec_period_triple:
  "spec_period r m (b, ti, k) = (b - (m - b * r), ti + b * r, k + 1)"
  by (simp add: spec_period_def Let_def)

lemma recurrence_to_loop:
  assumes "\<forall>j<n. 0 < fst ((spec_period r m ^^ j) (b, ti, k))"
    and "(spec_period r m ^^ n) (b, ti, k) = (b', ti', k')" and "b' \<le> 0"
  shows "payoff_loop r m b k ti = Some (k', ti')"
  using assms
proof (induction n arbitrary: b ti k)
  case 0
  then show ?case by (simp add: payoff_loop_stop)
next
  case (Suc n)
  from Suc.prems(1) have "0 < fst ((spec_period r m ^^ 0) (b, ti, k))" by blast
  then have pos: "0 < b" by simp
  have later: "\<forall>j<n. 0 < fst ((spec_period r m ^^ j) (b - (m - b * r), ti + b * r, k + 1))"
  proof (intro allI impI)
    fix j assume "j < n"
    then have "Suc j < Suc n" by simp
    with Suc.prems(1) have "0 < fst ((spec_period r m ^^ Suc j) (b, ti, k))" by blast
    then show "0 < fst ((spec_period r m ^^ j) (b - (m - b * r), ti + b * r, k + 1))"
      by (simp add: funpow_swap1 spec_period_triple)
  qed
  have last: "(spec_period r m ^^ n) (b - (m - b * r), ti + b * r, k + 1) = (b', ti', k')"
    using Suc.prems(2) by (simp add: funpow_swap1 spec_period_triple)
  from Suc.IH [OF later last Suc.prems(3)] pos show ?case
    by (simp add: payoff_loop_round)
qed

lemma loop_to_recurrence:
  assumes "payoff_loop r m b k ti = Some y"
  shows "\<exists>n b'. (\<forall>j<n. 0 < fst ((spec_period r m ^^ j) (b, ti, k))) \<and>
           (spec_period r m ^^ n) (b, ti, k) = (b', snd y, fst y) \<and> b' \<le> 0"
proof (induct rule: payoff_loop.raw_induct [OF _ assms])
  case (1 f r m b k ti y)
  show ?case
  proof (cases "0 < b")
    case False
    with "1.hyps"(2) have "y = (k, ti)" by simp
    with False have "(\<forall>j<0. 0 < fst ((spec_period r m ^^ j) (b, ti, k))) \<and>
           (spec_period r m ^^ 0) (b, ti, k) = (b, snd y, fst y) \<and> b \<le> 0" by simp
    then show ?thesis by blast
  next
    case True
    with "1.hyps"(2) have "f r m (b - (m - b * r)) (k + 1) (ti + b * r) = Some y"
      by (simp add: Let_def)
    from "1.hyps"(1) [OF this] obtain n b'
      where later:
        "\<forall>j<n. 0 < fst ((spec_period r m ^^ j) (b - (m - b * r), ti + b * r, k + 1))"
      and last:
        "(spec_period r m ^^ n) (b - (m - b * r), ti + b * r, k + 1) = (b', snd y, fst y)"
      and stop: "b' \<le> 0" by blast
    have "\<forall>j<Suc n. 0 < fst ((spec_period r m ^^ j) (b, ti, k))"
    proof (intro allI impI)
      fix j assume j: "j < Suc n"
      show "0 < fst ((spec_period r m ^^ j) (b, ti, k))"
      proof (cases j)
        case 0
        with True show ?thesis by simp
      next
        case (Suc i)
        with j later show ?thesis by (simp add: funpow_swap1 spec_period_triple)
      qed
    qed
    moreover have "(spec_period r m ^^ Suc n) (b, ti, k) = (b', snd y, fst y)"
      using last by (simp add: funpow_swap1 spec_period_triple)
    ultimately show ?thesis using stop by blast
  qed
qed

text \<open>
  Claim C5. The calculator follows the recurrence of the specification: it returns
  (months, total_interest) exactly when the minimum payment is positive and iterating
  the specified period from (amount_owed, 0, 0) keeps the remaining balance positive
  for some number n of periods and after n periods reaches a balance <= 0 together with
  that total_interest and that months (so months = n). The instance is the scenario of
  the specification, amount_owed = 1200, interest_rate = 12, min_payment = 200: the
  first period has interest 12, principal 188 and balance 1012, the script's loop makes
  the same first round, and iterating to the end gives 7 months and a total interest of
  43.855380388212.
\<close>

theorem payoff_follows_recurrence:
  "time_to_pay_off amount rate minimum = Some (Inr (months, total_interest)) \<longleftrightarrow>
     0 < minimum \<and>
     (\<exists>n remaining_balance.
        (\<forall>j<n. 0 < fst ((spec_period ((rate / 100) / 12) minimum ^^ j) (amount, 0, 0))) \<and>
        (spec_period ((rate / 100) / 12) minimum ^^ n) (amount, 0, 0) =
          (remaining_balance, total_interest, months) \<and>
        remaining_balance \<le> 0)"
  (is "?returns \<longleftrightarrow> ?iterated")
proof
  assume run: ?returns
  then have pos: "0 < minimum"
    by (auto simp: time_to_pay_off_def split: if_splits)
  with run have
    "payoff_loop ((rate / 100) / 12) minimum amount 0 0 = Some (months, total_interest)"
    by (auto simp: time_to_pay_off_def)
  from loop_to_recurrence [OF this] pos show ?iterated by simp
next
  assume ?iterated
  then obtain n remaining_balance where pos: "0 < minimum"
    and a: "\<forall>j<n. 0 < fst ((spec_period ((rate / 100) / 12) minimum ^^ j) (amount, 0, 0))"
    and b: "(spec_period ((rate / 100) / 12) minimum ^^ n) (amount, 0, 0) =
          (remaining_balance, total_interest, months)"
    and c: "remaining_balance \<le> 0" by blast
  from recurrence_to_loop [OF a b c] pos show ?returns
    by (simp add: time_to_pay_off_def)
qed

theorem payoff_follows_recurrence_witness:
  "spec_period ((12 / 100) / 12) 200 (1200, 0, 0) = (1200 - (200 - 12), 0 + 12, 1)
   \<and> 1200 - (200 - 12) = (1012::real)
   \<and> payoff_loop ((12 / 100) / 12) 200 1200 0 0 = payoff_loop ((12 / 100) / 12) 200 1012 1 12
   \<and> time_to_pay_off 1200 12 200 = Some (Inr (7, 43855380388212 / 10 ^ 12))"
proof -
  have "0 < (200::real) \<and>
     (\<exists>n remaining_balance.
        (\<forall>j<n. 0 < fst ((spec_period ((12 / 100) / 12) 200 ^^ j) (1200, 0, 0))) \<and>
        (spec_period ((12 / 100) / 12) 200 ^^ n) (1200, 0, 0) =
          (remaining_balance, 43855380388212 / 10 ^ 12, 7) \<and>
        remaining_balance \<le> 0)"
    apply simp
    apply (rule exI [of _ 7])
    apply (rule conjI)
     apply (auto simp add: eval_nat_numeral less_Suc_eq spec_period_triple)
    done
  then have "time_to_pay_off 1200 12 200 = Some (Inr (7, 43855380388212 / 10 ^ 12))"
    using payoff_follows_recurrence [of 1200 12 200 7 "43855380388212 / 10 ^ 12"] by blast
  moreover have "payoff_loop ((12 / 100) / 12) 200 1200 0 0 =
      payoff_loop ((12 / 100) / 12) 200 1012 1 12"
    by (subst payoff_loop_round) simp_all
  ultimately show ?thesis by (simp add: spec_period_triple)
qed

end
